theory Spec2Isabelle
  imports Complex_Main
begin

section \<open>Numbers, matrices and viewports\<close>

text \<open>
  The viewer computes with JavaScript numbers. The embedding reads them as real numbers:
  every formula below is the source's arithmetic expression, term by term, over
  \<^typ>\<open>real\<close>. Rounding of IEEE doubles is not part of the model.

  A text item's \<open>transform\<close> is the array \<open>[scaleX, skewY, skewX, scaleY, translateX,
  translateY]\<close> (the names are those of the destructuring in \<open>PDFPage.tsx\<close>).
\<close>

record matrix =
  scaleX :: real
  skewY :: real
  skewX :: real
  scaleY :: real
  translateX :: real
  translateY :: real

text \<open>
  \<open>const [scaleX, skewY, skewX, scaleY, translateX, translateY] = textItem.transform\<close>,
  behind the guard \<open>!textItem.transform || textItem.transform.length < 6\<close> of
  \<open>renderTextLayer\<close>: an absent array is the empty list here, and a short one gives
  no matrix. Components after the sixth are ignored, as the destructuring does.
\<close>

definition destructure :: "real list \<Rightarrow> matrix option" where
  "destructure t =
     (if length t < 6 then None
      else Some \<lparr>scaleX = t ! 0, skewY = t ! 1, skewX = t ! 2, scaleY = t ! 3,
                  translateX = t ! 4, translateY = t ! 5\<rparr>)"

text \<open>The viewport object of the rendering library, as far as the viewer reads it.\<close>

record viewport =
  vp_width :: real
  vp_height :: real
  vp_scale :: real
  vp_rotation :: int

section \<open>Strings\<close>

text \<open>
  Strings are lists of characters; \<open>length\<close> is the source's \<open>.length\<close>. The model
  covers ASCII text: white space is the ASCII part of what \<open>String.prototype.trim\<close>
  strips (TAB, LF, VT, FF, CR, SPACE).
\<close>

definition isWhiteSpace :: "char \<Rightarrow> bool" where
  "isWhiteSpace c = (c \<in> set [CHR 0x09, CHR 0x0A, CHR 0x0B, CHR 0x0C, CHR 0x0D, CHR 0x20])"

definition trim :: "string \<Rightarrow> string" where
  "trim s = rev (dropWhile isWhiteSpace (rev (dropWhile isWhiteSpace s)))"

section \<open>The text layer (\<open>renderTextLayer\<close> in \<open>PDFPage.tsx\<close>)\<close>

text \<open>
  An item of \<open>textContent.items\<close> as \<open>renderTextLayer\<close> reads it. \<open>tl_str\<close> is
  \<open>None\<close> when \<open>str\<close> is missing or not a string (a marked-content item).
\<close>

record textLayerItem =
  tl_str :: "string option"
  tl_transform :: "real list"
  tl_width :: real
  tl_fontName :: string

text \<open>
  \<open>textContent.styles[textItem.fontName] || {}\<close> followed by
  \<open>style.fontFamily || 'sans-serif'\<close>: a missing style and a missing or empty family
  all fall back to \<open>sans-serif\<close>.
\<close>

definition fontFamilyOf :: "(string \<rightharpoonup> string) \<Rightarrow> string \<Rightarrow> string" where
  "fontFamilyOf styles fontName =
     (case styles fontName of
        None \<Rightarrow> ''sans-serif''
      | Some family \<Rightarrow> if family = [] then ''sans-serif'' else family)"

text \<open>The locals of the loop body, lines 167 to 172 and 187, one definition each.\<close>

definition fontSize :: "matrix \<Rightarrow> viewport \<Rightarrow> real" where
  "fontSize m pdfViewport =
     sqrt (scaleX m * scaleX m + skewY m * skewY m) * vp_scale pdfViewport"

definition fontHeight :: "matrix \<Rightarrow> viewport \<Rightarrow> real" where
  "fontHeight m pdfViewport =
     sqrt (skewX m * skewX m + scaleY m * scaleY m) * vp_scale pdfViewport"

definition left :: "matrix \<Rightarrow> viewport \<Rightarrow> real" where
  "left m pdfViewport = translateX m * vp_scale pdfViewport"

definition top_px :: "matrix \<Rightarrow> viewport \<Rightarrow> real" where
  "top_px m pdfViewport =
     (translateY m - sqrt (skewX m * skewX m + scaleY m * scaleY m)) * vp_scale pdfViewport"

definition textWidth :: "textLayerItem \<Rightarrow> viewport \<Rightarrow> real" where
  "textWidth textItem pdfViewport = tl_width textItem * vp_scale pdfViewport"

text \<open>
  The span that the loop body appends, with the style properties it sets. A property
  the body leaves unset is \<open>None\<close>: \<open>style_width\<close> is set only for an item of positive
  width, \<open>style_transform\<close> holds the factor \<open>f\<close> of \<open>scaleX(f)\<close> when the body
  sets one.
\<close>

record textSpan =
  textContent :: string
  style_fontSize :: real
  style_fontFamily :: string
  style_left :: real
  style_top :: real
  style_width :: "real option"
  style_transform :: "real option"

text \<open>
  Lines 190 to 201. \<open>measureText fontSize family str\<close> stands for the canvas
  measurement \<open>ctx.measureText(str).width\<close> under the font
  \<open>`${fontSize}px ${family}`\<close>; it is a parameter of the model.
\<close>

definition scaleTransform ::
  "(real \<Rightarrow> string \<Rightarrow> string \<Rightarrow> real) \<Rightarrow> real \<Rightarrow> string \<Rightarrow> string \<Rightarrow> real \<Rightarrow> real option"
where
  "scaleTransform measureText fontSizePx family str textWidthPx =
     (let measuredWidth = measureText fontSizePx family str in
      if measuredWidth > 0 then
        (let scaleFactorX = textWidthPx / measuredWidth in
         if \<bar>scaleFactorX - 1\<bar> > 0.01 then Some scaleFactorX else None)
      else None)"

text \<open>
  The body of \<open>textContent.items.forEach\<close>, lines 160 to 210. \<open>None\<close> is one of
  the two early returns: no span is appended for the item.
\<close>

definition renderTextItem ::
  "(real \<Rightarrow> string \<Rightarrow> string \<Rightarrow> real) \<Rightarrow> (string \<rightharpoonup> string) \<Rightarrow> viewport \<Rightarrow> textLayerItem
     \<Rightarrow> textSpan option"
where
  "renderTextItem measureText styles pdfViewport textItem =
     (case tl_str textItem of
        None \<Rightarrow> None
      | Some str \<Rightarrow>
          if str = [] \<or> trim str = [] then None
          else
            (case destructure (tl_transform textItem) of
               None \<Rightarrow> None
             | Some m \<Rightarrow>
                 (let family = fontFamilyOf styles (tl_fontName textItem) in
                  Some \<lparr>textContent = str,
                        style_fontSize = fontSize m pdfViewport,
                        style_fontFamily = family,
                        style_left = left m pdfViewport,
                        style_top = top_px m pdfViewport,
                        style_width =
                          (if tl_width textItem > 0
                           then Some (textWidth textItem pdfViewport) else None),
                        style_transform =
                          (if tl_width textItem > 0
                           then scaleTransform measureText (fontSize m pdfViewport) family str
                                  (textWidth textItem pdfViewport)
                           else None)\<rparr>)))"

text \<open>The whole loop: the spans appended to the text layer, in item order.\<close>

definition renderTextLayer ::
  "(real \<Rightarrow> string \<Rightarrow> string \<Rightarrow> real) \<Rightarrow> (string \<rightharpoonup> string) \<Rightarrow> viewport
     \<Rightarrow> textLayerItem list \<Rightarrow> textSpan list"
where
  "renderTextLayer measureText styles pdfViewport items =
     List.map_filter (renderTextItem measureText styles pdfViewport) items"

text \<open>
  The horizontal factor in effect on a span: the factor of its \<open>scaleX\<close> transform,
  and 1 for a span without transform.
\<close>

definition horizontalScaleFactor :: "textSpan \<Rightarrow> real" where
  "horizontalScaleFactor sp = (case style_transform sp of None \<Rightarrow> 1 | Some f \<Rightarrow> f)"

section \<open>The search (\<open>createHighlightsForText\<close> in \<open>utils.ts\<close>)\<close>

subsection \<open>The regular expression\<close>

text \<open>
  Line 56 builds \<open>new RegExp(searchText.replace(/[.*+?^${}()|[\]\\]/g, '\\$&'), 'gi')\<close>.
  \<open>escapeClass\<close> is the character class of the \<open>replace\<close>, in the order written
  there; the replacement \<open>'\\$&'\<close> puts a backslash before each character of the
  class and leaves every other character as it is.
\<close>

definition backslash :: char where
  "backslash = CHR 0x5C"

definition escapeClass :: "char list" where
  "escapeClass =
     [CHR ''.'', CHR ''*'', CHR ''+'', CHR ''?'', CHR ''^'', CHR ''$'', CHR ''{'', CHR ''}'',
      CHR ''('', CHR '')'', CHR ''|'', CHR ''['', CHR '']'', backslash]"

definition escapeRegExp :: "string \<Rightarrow> string" where
  "escapeRegExp searchText =
     concat (map (\<lambda>c. if c \<in> set escapeClass then [backslash, c] else [c]) searchText)"

text \<open>
  The pattern language of \<open>RegExp\<close>, as far as the model goes. A pattern source is read
  left to right: a \<open>SyntaxCharacter\<close> of the ECMAScript grammar
  (\<open>^ $ \ . * + ? ( ) [ ] { } |\<close>) standing alone is part of an operator; a backslash
  followed by a syntax character is an identity escape and denotes that character; a
  backslash followed by any other character is an escape with a meaning of its own
  (\<open>\d\<close>, \<open>\b\<close>, \<open>\n\<close>, a back reference); every other character denotes itself.
\<close>

definition isSyntaxCharacter :: "char \<Rightarrow> bool" where
  "isSyntaxCharacter c =
     (c \<in> set [CHR ''^'', CHR ''$'', backslash, CHR ''.'', CHR ''*'', CHR ''+'', CHR ''?'',
                CHR ''('', CHR '')'', CHR ''['', CHR '']'', CHR ''{'', CHR ''}'', CHR ''|''])"

datatype patternToken =
    PatternCharacter char
  | SyntaxToken char
  | AtomEscape char

fun tokenize :: "string \<Rightarrow> patternToken list" where
  "tokenize [] = []"
| "tokenize [c] = [if isSyntaxCharacter c then SyntaxToken c else PatternCharacter c]"
| "tokenize (c # d # cs) =
     (if c = backslash then
        (if isSyntaxCharacter d then PatternCharacter d else AtomEscape d) # tokenize cs
      else
        (if isSyntaxCharacter c then SyntaxToken c else PatternCharacter c) # tokenize (d # cs))"

text \<open>
  A pattern all of whose tokens are pattern characters matches exactly the strings that
  spell those characters (up to case, under the \<open>i\<close> flag). \<open>literalPattern\<close> gives
  these characters. It is \<open>None\<close> for a pattern with an operator or an escape
  sequence: what such a pattern matches is outside this model.
\<close>

fun literalPattern :: "patternToken list \<Rightarrow> string option" where
  "literalPattern [] = Some []"
| "literalPattern (PatternCharacter c # ts) = map_option ((#) c) (literalPattern ts)"
| "literalPattern (SyntaxToken c # ts) = None"
| "literalPattern (AtomEscape c # ts) = None"

definition RegExp :: "string \<Rightarrow> string option" where
  "RegExp source = literalPattern (tokenize source)"

text \<open>
  The \<open>i\<close> flag compares characters after canonicalisation, which for ASCII is the
  upper-case mapping of the letters \<open>a\<close> to \<open>z\<close>.
\<close>

definition canonicalize :: "char \<Rightarrow> char" where
  "canonicalize ch =
     (let n = (of_char ch :: nat) in if 97 \<le> n \<and> n \<le> 122 then char_of (n - 32) else ch)"

text \<open>\<open>matchesAt pat s\<close>: the literal pattern matches a prefix of \<open>s\<close>.\<close>

fun matchesAt :: "string \<Rightarrow> string \<Rightarrow> bool" where
  "matchesAt [] s = True"
| "matchesAt (p # ps) [] = False"
| "matchesAt (p # ps) (c # cs) = (canonicalize p = canonicalize c \<and> matchesAt ps cs)"

text \<open>
  \<open>scan pat s i\<close>: the first index, counting from \<open>i\<close> at the head of \<open>s\<close>, where the
  pattern matches; \<open>s\<close> is the text from index \<open>i\<close> on.
\<close>

fun scan :: "string \<Rightarrow> string \<Rightarrow> nat \<Rightarrow> nat option" where
  "scan pat [] i = (if matchesAt pat [] then Some i else None)"
| "scan pat (c # cs) i = (if matchesAt pat (c # cs) then Some i else scan pat cs (Suc i))"

text \<open>
  The result of a successful \<open>exec\<close>: \<open>match.index\<close> and \<open>match[0]\<close>.
\<close>

record regExpMatch =
  match_index :: nat
  match_0 :: string

text \<open>
  \<open>searchRegex.exec(fullText)\<close> of a global expression whose \<open>lastIndex\<close> is the
  third argument: the leftmost match at or after \<open>lastIndex\<close>, or \<open>null\<close>
  (\<open>None\<close>). After a match \<open>exec\<close> sets \<open>lastIndex\<close> to the end of the match.
\<close>

definition exec :: "string \<Rightarrow> string \<Rightarrow> nat \<Rightarrow> regExpMatch option" where
  "exec pat fullText lastIndex =
     (if lastIndex > length fullText then None
      else
        (case scan pat (drop lastIndex fullText) lastIndex of
           None \<Rightarrow> None
         | Some i \<Rightarrow>
             Some \<lparr>match_index = i, match_0 = take (length pat) (drop i fullText)\<rparr>))"

text \<open>
  \<open>while ((match = searchRegex.exec(fullText)) !== null)\<close>: the sequence of values
  that \<open>match\<close> takes, from a given \<open>lastIndex\<close> on. The loop body does not touch
  the expression, so the sequence does not depend on it. A loop that never ends (an
  expression that matches the empty string does not advance \<open>lastIndex\<close>) has no
  sequence: the result is \<open>None\<close>.
\<close>

partial_function (option) matchLoop :: "string \<Rightarrow> string \<Rightarrow> nat \<Rightarrow> regExpMatch list option" where
  "matchLoop pat fullText lastIndex =
     (case exec pat fullText lastIndex of
        None \<Rightarrow> Some []
      | Some m \<Rightarrow>
          Option.bind (matchLoop pat fullText (match_index m + length (match_0 m)))
            (\<lambda>rest. Some (m # rest)))"

declare matchLoop.simps [code]

text \<open>
  Lines 56 to 59 together: the matches of \<open>searchText\<close> in \<open>fullText\<close>, with a
  fresh expression (\<open>lastIndex\<close> 0). \<open>None\<close>: no result in this model.
\<close>

definition findMatches :: "string \<Rightarrow> string \<Rightarrow> regExpMatch list option" where
  "findMatches searchText fullText =
     (case RegExp (escapeRegExp searchText) of
        None \<Rightarrow> None
      | Some searchRegex \<Rightarrow> matchLoop searchRegex fullText 0)"

text \<open>
  A case-insensitive literal occurrence of \<open>query\<close> in \<open>fullText\<close> at index \<open>p\<close>,
  in the words of the specification: the \<open>length query\<close> characters from \<open>p\<close> on
  spell \<open>query\<close> up to case.
\<close>

definition occursAt :: "string \<Rightarrow> string \<Rightarrow> nat \<Rightarrow> bool" where
  "occursAt query fullText p =
     (p + length query \<le> length fullText \<and>
      map canonicalize (take (length query) (drop p fullText)) = map canonicalize query)"

subsection \<open>Text items and rectangles\<close>

text \<open>
  An item of \<open>textContent.items\<close> as \<open>createHighlightsForText\<close> reads it.
  \<open>item_str\<close> is \<open>None\<close> when \<open>str\<close> is missing or not a string. The function
  destructures \<open>transform\<close> without a check of its own; the model takes the six
  numbers that the rendering library supplies.
\<close>

record pdfItem =
  item_str :: "string option"
  item_transform :: matrix
  item_width :: real
  item_height :: real

text \<open>The objects pushed onto \<open>textItems\<close> (lines 43 to 50).\<close>

record textItem =
  ti_text :: string
  startIndex :: nat
  endIndex :: nat
  ti_transform :: matrix
  ti_width :: real
  ti_height :: real

text \<open>
  \<open>textContent.items.forEach\<close>, lines 41 to 53, with the two variables it updates,
  \<open>fullText\<close> and \<open>textItems\<close>, as accumulators. \<open>item.str &&\<close> drops the empty
  string too.
\<close>

fun buildText :: "pdfItem list \<Rightarrow> string \<Rightarrow> textItem list \<Rightarrow> string \<times> textItem list" where
  "buildText [] fullText textItems = (fullText, textItems)"
| "buildText (item # items) fullText textItems =
     (case item_str item of
        None \<Rightarrow> buildText items fullText textItems
      | Some str \<Rightarrow>
          if str = [] then buildText items fullText textItems
          else
            buildText items (fullText @ str)
              (textItems @
                 [\<lparr>ti_text = str,
                   startIndex = length fullText,
                   endIndex = length fullText + length str,
                   ti_transform = item_transform item,
                   ti_width = item_width item,
                   ti_height = item_height item\<rparr>]))"

record PDFRect =
  rect_left :: real
  rect_top :: real
  rect_width :: real
  rect_height :: real

text \<open>
  Lines 69 to 83: the rectangle of a text item, in PDF coordinates.
  \<open>textItem.width || ...\<close> takes the fallback when the width is 0.
\<close>

definition itemRect :: "textItem \<Rightarrow> PDFRect" where
  "itemRect textItem =
     \<lparr>rect_left = translateX (ti_transform textItem),
      rect_top = translateY (ti_transform textItem),
      rect_width =
        (if ti_width textItem = 0
         then \<bar>scaleX (ti_transform textItem)\<bar> * real (length (ti_text textItem))
         else ti_width textItem),
      rect_height = \<bar>scaleY (ti_transform textItem)\<bar>\<rparr>"

text \<open>
  \<open>for (const textItem of textItems)\<close>, lines 66 to 85, with the array \<open>rects\<close> as
  accumulator.
\<close>

fun collectRects :: "textItem list \<Rightarrow> nat \<Rightarrow> nat \<Rightarrow> PDFRect list \<Rightarrow> PDFRect list" where
  "collectRects [] startIdx endIdx rects = rects"
| "collectRects (textItem # textItems) startIdx endIdx rects =
     (if endIndex textItem > startIdx \<and> startIndex textItem < endIdx
      then collectRects textItems startIdx endIdx (rects @ [itemRect textItem])
      else collectRects textItems startIdx endIdx rects)"

text \<open>
  The runs that contribute to the match span from \<open>s\<close> to \<open>e\<close>, in the words of the
  specification: the runs whose interval overlaps the span.
\<close>

definition contributingRuns :: "textItem list \<Rightarrow> nat \<Rightarrow> nat \<Rightarrow> textItem list" where
  "contributingRuns textItems s e =
     filter (\<lambda>run. endIndex run > s \<and> startIndex run < e) textItems"

subsection \<open>Highlights\<close>

record PDFHighlight =
  hl_id :: string
  pageNumber :: nat
  rects :: "PDFRect list"
  color :: string
  opacity :: real
  content :: string

text \<open>Decimal digits of a number, for the template string of the id.\<close>

fun decimal :: "nat \<Rightarrow> string" where
  "decimal n =
     (if n < 10 then [char_of (48 + n)] else decimal (n div 10) @ [char_of (48 + n mod 10)])"

declare decimal.simps [simp del]

text \<open>
  The body of the \<open>while\<close> loop, lines 60 to 98, for one match: the highlight pushed,
  or \<open>None\<close> when \<open>rects\<close> stays empty.
\<close>

definition highlightOfMatch ::
  "nat \<Rightarrow> textItem list \<Rightarrow> string \<Rightarrow> real \<Rightarrow> regExpMatch \<Rightarrow> PDFHighlight option"
where
  "highlightOfMatch pageNum textItems col opac m =
     (let startIdx = match_index m;
          endIdx = startIdx + length (match_0 m);
          rs = collectRects textItems startIdx endIdx []
      in if length rs > 0 then
           Some \<lparr>hl_id = ''highlight-'' @ decimal pageNum @ ''-'' @ decimal startIdx,
                 pageNumber = pageNum,
                 rects = rs,
                 color = col,
                 opacity = opac,
                 content = match_0 m\<rparr>
         else None)"

text \<open>
  One turn of the page loop, lines 34 to 99: the highlights of page \<open>pageNum\<close>.
  \<open>None\<close>: the turn does not complete.
\<close>

definition searchPage ::
  "nat \<Rightarrow> pdfItem list \<Rightarrow> string \<Rightarrow> string \<Rightarrow> real \<Rightarrow> PDFHighlight list option"
where
  "searchPage pageNum items searchText col opac =
     (case buildText items [] [] of
        (fullText, textItems) \<Rightarrow>
          map_option (List.map_filter (highlightOfMatch pageNum textItems col opac))
            (findMatches searchText fullText))"

text \<open>
  \<open>for (let pageNum = 1; pageNum <= pdfDocument.numPages; pageNum++)\<close>: a document
  is the list of its pages' items, and the highlights of the pages are appended in page
  order.
\<close>

fun searchPages ::
  "nat \<Rightarrow> pdfItem list list \<Rightarrow> string \<Rightarrow> string \<Rightarrow> real \<Rightarrow> PDFHighlight list option"
where
  "searchPages pageNum [] searchText col opac = Some []"
| "searchPages pageNum (items # pages) searchText col opac =
     (case searchPage pageNum items searchText col opac of
        None \<Rightarrow> None
      | Some hs \<Rightarrow> map_option ((@) hs) (searchPages (Suc pageNum) pages searchText col opac))"

text \<open>
  The function itself. \<open>pdfDocument\<close> is \<open>None\<close> for a null document. The result
  \<open>Some hs\<close> is the array the promise resolves to; \<open>None\<close> means that the function
  does not return. The promises of \<open>getPage\<close> and \<open>getTextContent\<close> are taken to
  resolve, so nothing in the model throws and the \<open>catch\<close> branch is not reached. The
  default values of \<open>color\<close> and \<open>opacity\<close> are left to the caller.
\<close>

definition createHighlightsForText ::
  "pdfItem list list option \<Rightarrow> string \<Rightarrow> string \<Rightarrow> real \<Rightarrow> PDFHighlight list option"
where
  "createHighlightsForText pdfDocument searchText col opac =
     (case pdfDocument of
        None \<Rightarrow> Some []
      | Some pages \<Rightarrow>
          if trim searchText = [] then Some [] else searchPages 1 pages searchText col opac)"

section \<open>Drawing highlights (\<open>renderHighlight\<close> in \<open>PDFHighlight.tsx\<close>)\<close>

text \<open>
  The source holds two versions of the component. \<open>renderHighlight\<close> is the one that
  takes rectangles in PDF coordinates, as the search produces them, and converts them
  (lines 115 to 160): the result is the list of \<open>canvasRect\<close>s drawn.
\<close>

definition renderHighlight :: "viewport \<Rightarrow> PDFHighlight \<Rightarrow> PDFRect list" where
  "renderHighlight vp highlight =
     map (\<lambda>rect.
            \<lparr>rect_left = rect_left rect * vp_scale vp,
             rect_top = (vp_height vp - rect_top rect - rect_height rect) * vp_scale vp,
             rect_width = rect_width rect * vp_scale vp,
             rect_height = rect_height rect * vp_scale vp\<rparr>)
         (rects highlight)"

text \<open>
  The other version (lines 21 to 70) is written for rectangles that an external service
  has already converted to viewport pixels, and draws them as they are.
\<close>

definition renderHighlightPixels :: "viewport \<Rightarrow> PDFHighlight \<Rightarrow> PDFRect list" where
  "renderHighlightPixels vp highlight =
     map (\<lambda>rect.
            \<lparr>rect_left = rect_left rect,
             rect_top = rect_top rect,
             rect_width = rect_width rect,
             rect_height = rect_height rect\<rparr>)
         (rects highlight)"

text \<open>
  The component: the highlights of the page, each drawn by \<open>renderHighlight\<close>.
\<close>

definition PDFHighlight_component :: "PDFHighlight list \<Rightarrow> nat \<Rightarrow> viewport \<Rightarrow> PDFRect list list" where
  "PDFHighlight_component highlights pageNum vp =
     map (renderHighlight vp) (filter (\<lambda>highlight. pageNumber highlight = pageNum) highlights)"

section \<open>Notions of the specification\<close>

text \<open>
  The specification's glyph metrics, for comparison with the text layer: the font size
  is the length of the matrix's vertical basis vector times the scale, and the top is
  the page height in PDF units (the viewport height over the scale) less
  \<open>translateY\<close>, scaled, less the font size.
\<close>

definition specFontSizePx :: "matrix \<Rightarrow> viewport \<Rightarrow> real" where
  "specFontSizePx m vp = sqrt (skewX m * skewX m + scaleY m * scaleY m) * vp_scale vp"

definition specTopPx :: "matrix \<Rightarrow> viewport \<Rightarrow> real" where
  "specTopPx m vp =
     (vp_height vp / vp_scale vp - translateY m) * vp_scale vp - specFontSizePx m vp"

text \<open>
  \<open>tiles a runs b\<close>: the intervals of the runs, in order, tile the interval from
  \<open>a\<close> to \<open>b\<close>: the first starts at \<open>a\<close>, each next one starts where the one
  before ends, and the last ends at \<open>b\<close>.
\<close>

fun tiles :: "nat \<Rightarrow> textItem list \<Rightarrow> nat \<Rightarrow> bool" where
  "tiles a [] b = (a = b)"
| "tiles a (run # runs) b = (startIndex run = a \<and> tiles (endIndex run) runs b)"

text \<open>
  \<open>matchesFrom pat fullText i ms\<close>: what the loop's sequence of matches from
  \<open>lastIndex = i\<close> is expected to be. Every match is an occurrence at or after \<open>i\<close>
  and carries the matched text; each match ends before the next begins; and every
  occurrence at or after \<open>i\<close> starts inside the span of a reported match.
\<close>

definition matchesFrom :: "string \<Rightarrow> string \<Rightarrow> nat \<Rightarrow> regExpMatch list \<Rightarrow> bool" where
  "matchesFrom pat fullText i ms \<longleftrightarrow>
     (\<forall>m \<in> set ms. i \<le> match_index m \<and> occursAt pat fullText (match_index m) \<and>
        match_0 m = take (length pat) (drop (match_index m) fullText)) \<and>
     sorted_wrt (\<lambda>a b. match_index a + length (match_0 a) \<le> match_index b) ms \<and>
     (\<forall>p. i \<le> p \<and> occursAt pat fullText p \<longrightarrow>
        (\<exists>m \<in> set ms. match_index m \<le> p \<and> p < match_index m + length pat))"

section \<open>Sample inputs\<close>

text \<open>
  The page of the specification's end-to-end scenario: one run \<open>Hello world\<close> with
  transform \<open>[12, 0, 0, 12, 50, 700]\<close>, width 66 and height 12, under a viewport of
  612 by 792 at scale 1.
\<close>

definition pageViewport :: viewport where
  "pageViewport = \<lparr>vp_width = 612, vp_height = 792, vp_scale = 1, vp_rotation = 0\<rparr>"

definition helloItem :: pdfItem where
  "helloItem =
     \<lparr>item_str = Some ''Hello world'',
      item_transform =
        \<lparr>scaleX = 12, skewY = 0, skewX = 0, scaleY = 12, translateX = 50, translateY = 700\<rparr>,
      item_width = 66, item_height = 12\<rparr>"

definition helloRun :: textItem where
  "helloRun =
     \<lparr>ti_text = ''Hello world'', startIndex = 0, endIndex = 11,
      ti_transform =
        \<lparr>scaleX = 12, skewY = 0, skewX = 0, scaleY = 12, translateX = 50, translateY = 700\<rparr>,
      ti_width = 66, ti_height = 12\<rparr>"

definition helloHighlight :: PDFHighlight where
  "helloHighlight =
     \<lparr>hl_id = ''highlight-1-6'', pageNumber = 1,
      rects = [\<lparr>rect_left = 50, rect_top = 700, rect_width = 66, rect_height = 12\<rparr>],
      color = ''#ffff00'', opacity = 0.3, content = ''world''\<rparr>"

definition helloSpanItem :: textLayerItem where
  "helloSpanItem =
     \<lparr>tl_str = Some ''Hello world'', tl_transform = [12, 0, 0, 12, 50, 700], tl_width = 66,
      tl_fontName = ''g_d0_f1''\<rparr>"

text \<open>The same run set in a condensed face: 10 units wide, 12 units high.\<close>

definition condensedSpanItem :: textLayerItem where
  "condensedSpanItem =
     \<lparr>tl_str = Some ''Hello world'', tl_transform = [10, 0, 0, 12, 50, 700], tl_width = 55,
      tl_fontName = ''g_d0_f1''\<rparr>"

text \<open>A measurement that gives every character 0.6 of the font size.\<close>

definition monospaceMeasure :: "real \<Rightarrow> string \<Rightarrow> string \<Rightarrow> real" where
  "monospaceMeasure px family str = px * 0.6 * real (length str)"

text \<open>
  A measurement that gives every character half the font size, and one that measures
  nothing (a width of 0).
\<close>

definition halfEmMeasure :: "real \<Rightarrow> string \<Rightarrow> string \<Rightarrow> real" where
  "halfEmMeasure px family str = px * 0.5 * real (length str)"

definition zeroMeasure :: "real \<Rightarrow> string \<Rightarrow> string \<Rightarrow> real" where
  "zeroMeasure px family str = 0"

text \<open>
  A page of two runs with a marked-content item between them, and the text items
  built from it.
\<close>

definition twoRunPage :: "pdfItem list" where
  "twoRunPage =
     [\<lparr>item_str = Some ''Hello '',
       item_transform =
         \<lparr>scaleX = 12, skewY = 0, skewX = 0, scaleY = 12, translateX = 50, translateY = 700\<rparr>,
       item_width = 36, item_height = 12\<rparr>,
      \<lparr>item_str = None,
       item_transform =
         \<lparr>scaleX = 1, skewY = 0, skewX = 0, scaleY = 1, translateX = 0, translateY = 0\<rparr>,
       item_width = 0, item_height = 0\<rparr>,
      \<lparr>item_str = Some ''World'',
       item_transform =
         \<lparr>scaleX = 12, skewY = 0, skewX = 0, scaleY = 12, translateX = 86, translateY = 700\<rparr>,
       item_width = 30, item_height = 12\<rparr>]"

definition helloSpaceRun :: textItem where
  "helloSpaceRun =
     \<lparr>ti_text = ''Hello '', startIndex = 0, endIndex = 6,
      ti_transform =
        \<lparr>scaleX = 12, skewY = 0, skewX = 0, scaleY = 12, translateX = 50, translateY = 700\<rparr>,
      ti_width = 36, ti_height = 12\<rparr>"

definition worldRun :: textItem where
  "worldRun =
     \<lparr>ti_text = ''World'', startIndex = 6, endIndex = 11,
      ti_transform =
        \<lparr>scaleX = 12, skewY = 0, skewX = 0, scaleY = 12, translateX = 86, translateY = 700\<rparr>,
      ti_width = 30, ti_height = 12\<rparr>"

section \<open>The escaped pattern is literal\<close>

text \<open>
  The class of the \<open>replace\<close> is the set of syntax characters, so every operator
  character of the query gets its backslash, and the pattern source lexes to the
  characters of the query.
\<close>

lemma escapeClass_syntax: "c \<in> set escapeClass \<longleftrightarrow> isSyntaxCharacter c"
  by (auto simp: escapeClass_def isSyntaxCharacter_def)

lemma backslash_syntax: "isSyntaxCharacter backslash"
  by (simp add: isSyntaxCharacter_def)

lemma escapeRegExp_Cons:
  "escapeRegExp (c # cs) = (if isSyntaxCharacter c then backslash # c # escapeRegExp cs else c # escapeRegExp cs)"
  by (simp add: escapeRegExp_def escapeClass_syntax)

lemma escapeRegExp_Nil: "escapeRegExp [] = []"
  by (simp add: escapeRegExp_def)

lemma tokenize_plain:
  "\<not> isSyntaxCharacter c \<Longrightarrow> tokenize (c # cs) = PatternCharacter c # tokenize cs"
  using backslash_syntax by (cases cs) auto

lemma tokenize_escapeRegExp: "tokenize (escapeRegExp q) = map PatternCharacter q"
  by (induction q) (simp_all add: escapeRegExp_Nil escapeRegExp_Cons tokenize_plain)

lemma literalPattern_map: "literalPattern (map PatternCharacter q) = Some q"
  by (induction q) simp_all

lemma RegExp_escapeRegExp: "RegExp (escapeRegExp q) = Some q"
  by (simp add: RegExp_def tokenize_escapeRegExp literalPattern_map)

section \<open>The matching loop\<close>

text \<open>
  \<open>exec\<close> finds the leftmost occurrence at or after \<open>lastIndex\<close>; the loop
  terminates for a non-empty pattern, since each match moves \<open>lastIndex\<close> forward,
  and its matches are as \<open>matchesFrom\<close> describes.
\<close>

lemma matchesAt_iff:
  "matchesAt pat s \<longleftrightarrow> length pat \<le> length s \<and> map canonicalize (take (length pat) s) = map canonicalize pat"
  by (induction pat s rule: matchesAt.induct) auto

lemma matchesAt_drop_occursAt:
  "p \<le> length fullText \<Longrightarrow> matchesAt q (drop p fullText) \<longleftrightarrow> occursAt q fullText p"
  by (auto simp: matchesAt_iff occursAt_def)

lemma scan_Some:
  "scan pat s i = Some j \<Longrightarrow>
     i \<le> j \<and> j - i \<le> length s \<and> matchesAt pat (drop (j - i) s) \<and> (\<forall>k < j - i. \<not> matchesAt pat (drop k s))"
proof (induction pat s i rule: scan.induct)
  case (1 pat i)
  then show ?case by (auto split: if_splits)
next
  case (2 pat c cs i)
  show ?case
  proof (cases "matchesAt pat (c # cs)")
    case True
    with 2 show ?thesis by auto
  next
    case False
    with 2 have s: "scan pat cs (Suc i) = Some j" by simp
    from 2(1)[OF False s] have ih: "Suc i \<le> j" "j - Suc i \<le> length cs" "matchesAt pat (drop (j - Suc i) cs)"
      "\<forall>k < j - Suc i. \<not> matchesAt pat (drop k cs)" by auto
    have e: "j - i = Suc (j - Suc i)" using ih(1) by simp
    have "\<forall>k < j - i. \<not> matchesAt pat (drop k (c # cs))"
    proof (intro allI impI)
      fix k assume "k < j - i"
      show "\<not> matchesAt pat (drop k (c # cs))"
      proof (cases k)
        case 0 then show ?thesis using False by simp
      next
        case (Suc k')
        then have "k' < j - Suc i" using \<open>k < j - i\<close> e by simp
        then show ?thesis using ih(4) Suc by simp
      qed
    qed
    then show ?thesis using ih e by simp
  qed
qed

lemma scan_None:
  "scan pat s i = None \<Longrightarrow> k \<le> length s \<Longrightarrow> \<not> matchesAt pat (drop k s)"
proof (induction pat s i arbitrary: k rule: scan.induct)
  case (1 pat i)
  then show ?case by (auto split: if_splits)
next
  case (2 pat c cs i)
  then show ?case by (cases k) (auto split: if_splits)
qed

lemma exec_Some:
  assumes "exec pat fullText lastIndex = Some m"
  shows "lastIndex \<le> match_index m" 
    and "occursAt pat fullText (match_index m)"
    and "match_0 m = take (length pat) (drop (match_index m) fullText)"
    and "length (match_0 m) = length pat"
    and "\<forall>k. lastIndex \<le> k \<and> k < match_index m \<longrightarrow> \<not> occursAt pat fullText k"
proof -
  from assms obtain j where le: "lastIndex \<le> length fullText"
    and sc: "scan pat (drop lastIndex fullText) lastIndex = Some j"
    and m: "m = \<lparr>match_index = j, match_0 = take (length pat) (drop j fullText)\<rparr>"
    by (auto simp: exec_def split: if_splits option.splits)
  from scan_Some[OF sc] have a: "lastIndex \<le> j" and b: "j - lastIndex \<le> length (drop lastIndex fullText)"
    and c: "matchesAt pat (drop (j - lastIndex) (drop lastIndex fullText))"
    and d: "\<forall>k < j - lastIndex. \<not> matchesAt pat (drop k (drop lastIndex fullText))" by auto
  have jl: "j \<le> length fullText" using a b le by simp
  have c': "matchesAt pat (drop j fullText)" using c a by simp
  show "lastIndex \<le> match_index m" using a m by simp
  show occ: "occursAt pat fullText (match_index m)" using c' jl m by (simp add: matchesAt_drop_occursAt)
  show "match_0 m = take (length pat) (drop (match_index m) fullText)" using m by simp
  show "length (match_0 m) = length pat" using m occ by (auto simp: occursAt_def)
  show "\<forall>k. lastIndex \<le> k \<and> k < match_index m \<longrightarrow> \<not> occursAt pat fullText k"
  proof (intro allI impI)
    fix k assume k: "lastIndex \<le> k \<and> k < match_index m"
    then have "k - lastIndex < j - lastIndex" using m by auto
    with d have "\<not> matchesAt pat (drop (k - lastIndex) (drop lastIndex fullText))" by blast
    then have "\<not> matchesAt pat (drop k fullText)" using k by simp
    moreover have "k \<le> length fullText" using k jl m by simp
    ultimately show "\<not> occursAt pat fullText k" by (simp add: matchesAt_drop_occursAt)
  qed
qed

lemma exec_None:
  assumes "exec pat fullText lastIndex = None" and "lastIndex \<le> k"
  shows "\<not> occursAt pat fullText k"
proof
  assume occ: "occursAt pat fullText k"
  then have kl: "k \<le> length fullText" by (simp add: occursAt_def)
  then have le: "lastIndex \<le> length fullText" using assms(2) by simp
  with assms(1) have "scan pat (drop lastIndex fullText) lastIndex = None"
    by (auto simp: exec_def split: option.splits)
  from scan_None[OF this, of "k - lastIndex"] have "\<not> matchesAt pat (drop (k - lastIndex) (drop lastIndex fullText))"
    using kl assms(2) by simp
  then have "\<not> matchesAt pat (drop k fullText)" using assms(2) by simp
  then show False using occ kl by (simp add: matchesAt_drop_occursAt)
qed


lemma matchLoop_None: "exec pat fullText i = None \<Longrightarrow> matchLoop pat fullText i = Some []"
  by (subst matchLoop.simps) simp

lemma matchLoop_Some:
  "exec pat fullText i = Some m \<Longrightarrow>
   matchLoop pat fullText (match_index m + length (match_0 m)) = Some rest \<Longrightarrow>
   matchLoop pat fullText i = Some (m # rest)"
  by (subst matchLoop.simps) simp

lemma matchLoop_total:
  assumes ne: "pat \<noteq> []"
  shows "\<exists>ms. matchLoop pat fullText i = Some ms \<and> matchesFrom pat fullText i ms"
proof (induction "length fullText - i" arbitrary: i rule: less_induct)
  case less
  show ?case
  proof (cases "exec pat fullText i")
    case None
    have "matchesFrom pat fullText i []"
      using exec_None[OF None] by (auto simp: matchesFrom_def)
    with matchLoop_None[OF None] show ?thesis by blast
  next
    case (Some m)
    note ex = exec_Some[OF Some]
    let ?j = "match_index m + length (match_0 m)"
    have len: "length (match_0 m) = length pat" by (rule ex(4))
    have pos: "0 < length pat" using ne by simp
    have bound: "?j \<le> length fullText" using ex(2) len by (simp add: occursAt_def)
    have "length fullText - ?j < length fullText - i"
      using bound ex(1) pos len by linarith
    from less[OF this] obtain rest where
      r: "matchLoop pat fullText ?j = Some rest" and mf: "matchesFrom pat fullText ?j rest"
      by blast
    have loop: "matchLoop pat fullText i = Some (m # rest)"
      by (rule matchLoop_Some[OF Some r])
    have a: "\<forall>x \<in> set (m # rest). i \<le> match_index x \<and> occursAt pat fullText (match_index x) \<and>
        match_0 x = take (length pat) (drop (match_index x) fullText)"
    proof
      fix x assume "x \<in> set (m # rest)"
      then consider "x = m" | "x \<in> set rest" by auto
      then show "i \<le> match_index x \<and> occursAt pat fullText (match_index x) \<and>
        match_0 x = take (length pat) (drop (match_index x) fullText)"
      proof cases
        case 1 then show ?thesis using ex by simp
      next
        case 2
        then have "?j \<le> match_index x" "occursAt pat fullText (match_index x)"
          "match_0 x = take (length pat) (drop (match_index x) fullText)"
          using mf by (auto simp: matchesFrom_def)
        then show ?thesis using ex(1) by simp
      qed
    qed
    have b: "sorted_wrt (\<lambda>a b. match_index a + length (match_0 a) \<le> match_index b) (m # rest)"
      using mf by (auto simp: matchesFrom_def)
    have c: "\<forall>p. i \<le> p \<and> occursAt pat fullText p \<longrightarrow>
        (\<exists>x \<in> set (m # rest). match_index x \<le> p \<and> p < match_index x + length pat)"
    proof (intro allI impI)
      fix p assume p: "i \<le> p \<and> occursAt pat fullText p"
      have nlt: "\<not> p < match_index m" using ex(5) p by blast
      show "\<exists>x \<in> set (m # rest). match_index x \<le> p \<and> p < match_index x + length pat"
      proof (cases "p < ?j")
        case True
        then show ?thesis using nlt len by auto
      next
        case False
        then have "?j \<le> p \<and> occursAt pat fullText p" using p by simp
        then obtain x where "x \<in> set rest" "match_index x \<le> p \<and> p < match_index x + length pat"
          using mf unfolding matchesFrom_def by blast
        then show ?thesis by auto
      qed
    qed
    have "matchesFrom pat fullText i (m # rest)"
      unfolding matchesFrom_def using a b c by blast
    with loop show ?thesis by blast
  qed
qed


lemma findMatches_total:
  assumes "searchText \<noteq> []"
  shows "\<exists>ms. findMatches searchText fullText = Some ms \<and> matchesFrom searchText fullText 0 ms"
  using matchLoop_total[OF assms, of fullText 0] by (simp add: findMatches_def RegExp_escapeRegExp)

section \<open>Text items tile the text\<close>

lemma tiles_snoc:
  "tiles a runs b \<Longrightarrow> startIndex run = b \<Longrightarrow> tiles a (runs @ [run]) (endIndex run)"
  by (induction runs arbitrary: a) auto

lemma buildText_tiles:
  "tiles 0 textItems (length fullText) \<Longrightarrow> buildText items fullText textItems = (fullText', textItems') \<Longrightarrow>
   tiles 0 textItems' (length fullText')"
proof (induction items fullText textItems rule: buildText.induct)
  case (1 fullText textItems)
  then show ?case by simp
next
  case (2 item items fullText textItems)
  show ?case
  proof (cases "item_str item")
    case None
    with 2 show ?thesis by simp
  next
    case (Some str)
    show ?thesis
    proof (cases "str = []")
      case True
      with 2 Some show ?thesis by simp
    next
      case False
      let ?run = "\<lparr>ti_text = str, startIndex = length fullText, endIndex = length fullText + length str,
                   ti_transform = item_transform item, ti_width = item_width item, ti_height = item_height item\<rparr>"
      have t: "tiles 0 (textItems @ [?run]) (length (fullText @ str))"
        using tiles_snoc[OF "2.prems"(1), of ?run] by simp
      have b: "buildText items (fullText @ str) (textItems @ [?run]) = (fullText', textItems')"
        using "2.prems"(2) Some False by simp
      show ?thesis by (rule "2.IH"(3)[OF Some False t b])
    qed
  qed
qed

lemma tiles_cover:
  "tiles a runs b \<Longrightarrow> a \<le> s \<Longrightarrow> s < b \<Longrightarrow> \<exists>run \<in> set runs. startIndex run \<le> s \<and> s < endIndex run"
proof (induction runs arbitrary: a)
  case Nil
  then show ?case by simp
next
  case (Cons run runs)
  show ?case
  proof (cases "s < endIndex run")
    case True
    with Cons.prems show ?thesis by auto
  next
    case False
    then have "endIndex run \<le> s" by simp
    from Cons.IH[OF _ this Cons.prems(3)] Cons.prems(1) show ?thesis by auto
  qed
qed

lemma collectRects_acc:
  "collectRects textItems s e acc = acc @ map itemRect (contributingRuns textItems s e)"
  by (induction textItems arbitrary: acc) (simp_all add: contributingRuns_def)

lemma highlightOfMatch_Some:
  assumes "highlightOfMatch pageNum textItems col opac m = Some h"
  shows "rects h = map itemRect (contributingRuns textItems (match_index m) (match_index m + length (match_0 m)))"
    and "content h = match_0 m" and "pageNumber h = pageNum"
  using assms by (auto simp: highlightOfMatch_def Let_def collectRects_acc split: if_splits)

lemma map_filter_all_Some:
  "\<forall>m \<in> set ms. \<exists>h. f m = Some h \<and> g h = k m \<Longrightarrow> map g (List.map_filter f ms) = map k ms"
  by (induction ms) auto

section \<open>The guard on the query\<close>

lemma trim_Nil_iff: "trim s = [] \<longleftrightarrow> (\<forall>c \<in> set s. isWhiteSpace c)"
proof
  assume "trim s = []"
  then have "\<forall>c \<in> set (dropWhile isWhiteSpace s). isWhiteSpace c"
    by (simp add: trim_def)
  then have "dropWhile isWhiteSpace s = []"
    using hd_dropWhile[of isWhiteSpace s] by (cases "dropWhile isWhiteSpace s") auto
  then show "\<forall>c \<in> set s. isWhiteSpace c" by simp
next
  assume "\<forall>c \<in> set s. isWhiteSpace c"
  then have d: "dropWhile isWhiteSpace s = []" by simp
  show "trim s = []" unfolding trim_def d by simp
qed


section \<open>The text layer's spans\<close>

lemma renderTextItem_Some:
  assumes "renderTextItem measureText styles vp item = Some sp"
  obtains str m where "tl_str item = Some str" "destructure (tl_transform item) = Some m"
    "textContent sp = str"
    "style_fontSize sp = fontSize m vp"
    "style_fontFamily sp = fontFamilyOf styles (tl_fontName item)"
    "style_left sp = left m vp" "style_top sp = top_px m vp"
    "style_width sp = (if tl_width item > 0 then Some (textWidth item vp) else None)"
    "style_transform sp = (if tl_width item > 0 then
        scaleTransform measureText (fontSize m vp) (fontFamilyOf styles (tl_fontName item)) str (textWidth item vp) else None)"
  using assms
  by (auto simp: renderTextItem_def Let_def split: option.splits if_splits)

lemma renderTextItem_defined:
  "renderTextItem measureText styles vp item = Some sp \<Longrightarrow>
   \<exists>sp'. renderTextItem measureText styles vp' item = Some sp'"
  by (auto simp: renderTextItem_def Let_def split: option.splits if_splits)

section \<open>The sample inputs, evaluated\<close>

lemma trim_hello: "trim ''Hello world'' = ''Hello world''"
  by (simp add: trim_def isWhiteSpace_def)

lemma destructure_hello:
  "destructure [12, 0, 0, 12, 50, 700] =
     Some \<lparr>scaleX = 12, skewY = 0, skewX = 0, scaleY = 12, translateX = 50, translateY = 700\<rparr>"
  by (simp add: destructure_def)

lemma destructure_condensed:
  "destructure [10, 0, 0, 12, 50, 700] =
     Some \<lparr>scaleX = 10, skewY = 0, skewX = 0, scaleY = 12, translateX = 50, translateY = 700\<rparr>"
  by (simp add: destructure_def)

lemma render_hello_any:
  "renderTextItem measureText Map.empty pageViewport helloSpanItem =
     Some \<lparr>textContent = ''Hello world'', style_fontSize = 12, style_fontFamily = ''sans-serif'',
           style_left = 50, style_top = 688, style_width = Some 66,
           style_transform = scaleTransform measureText 12 ''sans-serif'' ''Hello world'' 66\<rparr>"
  by (simp add: renderTextItem_def helloSpanItem_def pageViewport_def trim_hello destructure_hello
      fontFamilyOf_def fontSize_def left_def top_px_def textWidth_def Let_def)

lemma render_hello:
  "renderTextItem monospaceMeasure Map.empty pageViewport helloSpanItem =
     Some \<lparr>textContent = ''Hello world'', style_fontSize = 12, style_fontFamily = ''sans-serif'',
           style_left = 50, style_top = 688, style_width = Some 66, style_transform = Some (5 / 6)\<rparr>"
  by (simp add: renderTextItem_def helloSpanItem_def pageViewport_def trim_hello destructure_hello
      fontFamilyOf_def fontSize_def left_def top_px_def textWidth_def scaleTransform_def
      monospaceMeasure_def Let_def)

lemma render_condensed_fontSize:
  "map_option style_fontSize
     (renderTextItem monospaceMeasure Map.empty pageViewport condensedSpanItem) = Some 10"
  by (simp add: renderTextItem_def condensedSpanItem_def pageViewport_def trim_hello
      destructure_condensed fontFamilyOf_def fontSize_def Let_def)

lemma buildText_hello: "buildText [helloItem] [] [] = (''Hello world'', [helloRun])"
  by (simp add: helloItem_def helloRun_def)

lemma findMatches_world:
  "findMatches ''world'' ''Hello world'' = Some [\<lparr>match_index = 6, match_0 = ''world''\<rparr>]"
  by code_simp

lemma id_1_6: "''highlight-'' @ decimal 1 @ ''-'' @ decimal 6 = ''highlight-1-6''"
  by code_simp

lemma contributing_hello: "contributingRuns [helloRun] 6 11 = [helloRun]"
  by (simp add: contributingRuns_def helloRun_def)

lemma itemRect_hello:
  "itemRect helloRun = \<lparr>rect_left = 50, rect_top = 700, rect_width = 66, rect_height = 12\<rparr>"
  by (simp add: itemRect_def helloRun_def)

lemma highlight_hello:
  "highlightOfMatch 1 [helloRun] ''#ffff00'' 0.3 \<lparr>match_index = 6, match_0 = ''world''\<rparr> =
     Some helloHighlight"
  using id_1_6
  by (simp add: highlightOfMatch_def Let_def collectRects_acc contributing_hello itemRect_hello
      helloHighlight_def)

lemma trim_world: "trim ''world'' = ''world''"
  by (simp add: trim_def isWhiteSpace_def)

lemma searchPage_hello:
  "searchPage 1 [helloItem] ''world'' ''#ffff00'' 0.3 = Some [helloHighlight]"
  by (simp only: searchPage_def buildText_hello prod.case findMatches_world option.map
      map_filter_simps highlight_hello option.case)

lemma createHighlights_hello:
  "createHighlightsForText (Some [[helloItem]]) ''world'' ''#ffff00'' 0.3 = Some [helloHighlight]"
proof -
  have "searchPages 1 [[helloItem]] ''world'' ''#ffff00'' 0.3 = Some [helloHighlight]"
    by (simp only: searchPages.simps searchPage_hello option.case option.map append_Nil2)
  then show ?thesis
    by (simp only: createHighlightsForText_def option.case trim_world) simp
qed

lemma buildText_twoRun:
  "buildText twoRunPage [] [] = (''Hello World'', [helloSpaceRun, worldRun])"
  by (simp add: twoRunPage_def helloSpaceRun_def worldRun_def)

lemma findMatches_o_w:
  "findMatches ''o w'' ''Hello World'' = Some [\<lparr>match_index = 4, match_0 = ''o W''\<rparr>]"
  by code_simp

lemma contributing_twoRun:
  "contributingRuns [helloSpaceRun, worldRun] 4 7 = [helloSpaceRun, worldRun]"
  "contributingRuns [helloSpaceRun, worldRun] 0 3 = [helloSpaceRun]"
  by (simp_all add: contributingRuns_def helloSpaceRun_def worldRun_def)

section \<open>The claims about the text layer\<close>

text \<open>
  C1. The claim: the top of a glyph box is the page height in PDF units less
  \<open>translateY\<close>, times the scale, less the font size in pixels, so that the Y
  coordinate is flipped around the page height. For the run \<open>Hello world\<close> of the
  sample page (baseline at \<open>translateY = 700\<close> on a page 792 high, scale 1) this asks
  for a top of 80 pixels. The text layer computes
  \<open>(translateY - sqrt (skewX\<^sup>2 + scaleY\<^sup>2)) * scale\<close> without the flip and puts
  the span at 688 pixels.
\<close>

theorem text_layer_top_at_sample:
  "map_option style_top
     (renderTextItem monospaceMeasure Map.empty pageViewport helloSpanItem) = Some 688 \<and>
   map_option (\<lambda>m. specTopPx m pageViewport) (destructure (tl_transform helloSpanItem)) = Some 80"
proof
  show "map_option style_top
     (renderTextItem monospaceMeasure Map.empty pageViewport helloSpanItem) = Some 688"
    by (simp add: render_hello)
  show "map_option (\<lambda>m. specTopPx m pageViewport) (destructure (tl_transform helloSpanItem)) = Some 80"
    by (simp add: helloSpanItem_def destructure_hello specTopPx_def specFontSizePx_def
        pageViewport_def)
qed

text \<open>
  C3. The claim: the font size in pixels of a glyph span is
  \<open>sqrt (skewX\<^sup>2 + scaleY\<^sup>2) * scale\<close>, the length of the matrix's vertical basis
  vector times the scale. The text layer computes this value as \<open>fontHeight\<close> but
  assigns \<open>sqrt (scaleX\<^sup>2 + skewY\<^sup>2) * scale\<close>, the length of the horizontal basis
  vector, as the font size: for the condensed run with transform
  \<open>[10, 0, 0, 12, 50, 700]\<close> at scale 1 the span gets 10 pixels where the claim asks
  for 12.
\<close>

theorem text_layer_font_size_at_sample:
  "map_option style_fontSize
     (renderTextItem monospaceMeasure Map.empty pageViewport condensedSpanItem) = Some 10 \<and>
   map_option (\<lambda>m. specFontSizePx m pageViewport) (destructure (tl_transform condensedSpanItem)) =
     Some 12"
proof
  show "map_option style_fontSize
     (renderTextItem monospaceMeasure Map.empty pageViewport condensedSpanItem) = Some 10"
    by (rule render_condensed_fontSize)
  show "map_option (\<lambda>m. specFontSizePx m pageViewport)
          (destructure (tl_transform condensedSpanItem)) = Some 12"
    by (simp add: condensedSpanItem_def destructure_condensed specFontSizePx_def pageViewport_def)
qed

text \<open>
  C7. For a fixed item, doubling the viewport's scale doubles the left and top
  coordinates, the font size and the width of its span, and the glyph height
  \<open>fontHeight\<close>; the item is rendered at the doubled scale whenever it is rendered at
  the original one.
\<close>

theorem projection_scale_linear:
  assumes "renderTextItem measureText styles vp item = Some sp"
  shows "\<exists>sp'. renderTextItem measureText styles (vp\<lparr>vp_scale := 2 * vp_scale vp\<rparr>) item = Some sp' \<and>
           style_left sp' = 2 * style_left sp \<and>
           style_top sp' = 2 * style_top sp \<and>
           style_fontSize sp' = 2 * style_fontSize sp \<and>
           style_width sp' = map_option ((*) 2) (style_width sp) \<and>
           (\<forall>m. destructure (tl_transform item) = Some m \<longrightarrow>
              fontHeight m (vp\<lparr>vp_scale := 2 * vp_scale vp\<rparr>) = 2 * fontHeight m vp)"
proof -
  let ?vp' = "vp\<lparr>vp_scale := 2 * vp_scale vp\<rparr>"
  from renderTextItem_defined[OF assms] obtain sp' where
    r': "renderTextItem measureText styles ?vp' item = Some sp'" by blast
  from assms obtain m where a: "destructure (tl_transform item) = Some m"
    "style_fontSize sp = fontSize m vp" "style_left sp = left m vp" "style_top sp = top_px m vp"
    "style_width sp = (if tl_width item > 0 then Some (textWidth item vp) else None)"
    by (rule renderTextItem_Some)
  from r' obtain m' where b: "destructure (tl_transform item) = Some m'"
    "style_fontSize sp' = fontSize m' ?vp'" "style_left sp' = left m' ?vp'"
    "style_top sp' = top_px m' ?vp'"
    "style_width sp' = (if tl_width item > 0 then Some (textWidth item ?vp') else None)"
    by (rule renderTextItem_Some)
  have mm: "m' = m" using a(1) b(1) by simp
  have "style_left sp' = 2 * style_left sp" using a b mm by (simp add: left_def)
  moreover have "style_top sp' = 2 * style_top sp" using a b mm by (simp add: top_px_def)
  moreover have "style_fontSize sp' = 2 * style_fontSize sp"
    using a b mm by (simp add: fontSize_def)
  moreover have "style_width sp' = map_option ((*) 2) (style_width sp)"
    using a b by (simp add: textWidth_def)
  moreover have "\<forall>m. destructure (tl_transform item) = Some m \<longrightarrow>
      fontHeight m ?vp' = 2 * fontHeight m vp"
    by (simp add: fontHeight_def)
  ultimately show ?thesis using r' by blast
qed

theorem projection_scale_linear_witness:
  "renderTextItem monospaceMeasure Map.empty pageViewport helloSpanItem =
     Some \<lparr>textContent = ''Hello world'', style_fontSize = 12, style_fontFamily = ''sans-serif'',
           style_left = 50, style_top = 688, style_width = Some 66,
           style_transform = Some (5 / 6)\<rparr> \<and>
   (\<exists>sp'. renderTextItem monospaceMeasure Map.empty
             (pageViewport\<lparr>vp_scale := 2 * vp_scale pageViewport\<rparr>) helloSpanItem = Some sp' \<and>
          style_left sp' = 100 \<and> style_top sp' = 1376 \<and> style_fontSize sp' = 24 \<and>
          style_width sp' = Some 132 \<and>
          fontHeight \<lparr>scaleX = 12, skewY = 0, skewX = 0, scaleY = 12, translateX = 50,
                       translateY = 700\<rparr>
            (pageViewport\<lparr>vp_scale := 2 * vp_scale pageViewport\<rparr>) = 24 \<and>
          fontHeight \<lparr>scaleX = 12, skewY = 0, skewX = 0, scaleY = 12, translateX = 50,
                       translateY = 700\<rparr> pageViewport = 12)"
proof -
  have d: "destructure (tl_transform helloSpanItem) =
      Some \<lparr>scaleX = 12, skewY = 0, skewX = 0, scaleY = 12, translateX = 50, translateY = 700\<rparr>"
    by (simp add: helloSpanItem_def destructure_hello)
  have g: "fontHeight \<lparr>scaleX = 12, skewY = 0, skewX = 0, scaleY = 12, translateX = 50,
      translateY = 700\<rparr> pageViewport = 12"
    by (simp add: fontHeight_def pageViewport_def)
  show ?thesis
    using projection_scale_linear[OF render_hello] d g render_hello by auto
qed

text \<open>
  C8. For an item of positive width, with \<open>measuredWidth\<close> the measured width of
  its text at the span's font, the factor \<open>(width * scale) / measuredWidth\<close> is applied
  as the span's horizontal scale exactly when \<open>measuredWidth\<close> is positive and the
  factor differs from 1 by more than 0.01; when \<open>measuredWidth\<close> is zero or negative
  the span gets no horizontal scale, that is the factor 1.
\<close>

theorem horizontal_scale_correction:
  assumes "renderTextItem measureText styles vp item = Some sp" and "tl_width item > 0"
  shows "(let measuredWidth = measureText (style_fontSize sp) (style_fontFamily sp) (textContent sp);
              factor = (tl_width item * vp_scale vp) / measuredWidth
          in (measuredWidth > 0 \<and> \<bar>factor - 1\<bar> > 0.01 \<longrightarrow>
                style_transform sp = Some factor \<and> horizontalScaleFactor sp = factor) \<and>
             (measuredWidth > 0 \<and> \<bar>factor - 1\<bar> \<le> 0.01 \<longrightarrow>
                style_transform sp = None \<and> horizontalScaleFactor sp = 1) \<and>
             (measuredWidth \<le> 0 \<longrightarrow> style_transform sp = None \<and> horizontalScaleFactor sp = 1))"
proof -
  from assms(1) obtain str m where a: "textContent sp = str" "style_fontSize sp = fontSize m vp"
    "style_fontFamily sp = fontFamilyOf styles (tl_fontName item)"
    "style_transform sp = (if tl_width item > 0 then
        scaleTransform measureText (fontSize m vp) (fontFamilyOf styles (tl_fontName item)) str
          (textWidth item vp) else None)"
    by (rule renderTextItem_Some)
  show ?thesis
    using a assms(2)
    by (simp add: Let_def scaleTransform_def textWidth_def horizontalScaleFactor_def)
qed

theorem horizontal_scale_correction_witness:
  "tl_width helloSpanItem > 0 \<and>
   map_option style_transform
     (renderTextItem monospaceMeasure Map.empty pageViewport helloSpanItem) = Some (Some (5 / 6)) \<and>
   map_option horizontalScaleFactor
     (renderTextItem monospaceMeasure Map.empty pageViewport helloSpanItem) = Some (5 / 6) \<and>
   map_option style_transform
     (renderTextItem halfEmMeasure Map.empty pageViewport helloSpanItem) = Some None \<and>
   map_option horizontalScaleFactor
     (renderTextItem zeroMeasure Map.empty pageViewport helloSpanItem) = Some 1"
proof -
  have w: "tl_width helloSpanItem > 0" by (simp add: helloSpanItem_def)
  have x: "scaleTransform monospaceMeasure 12 ''sans-serif'' ''Hello world'' 66 = Some (5 / 6)"
    using horizontal_scale_correction[OF render_hello_any[of monospaceMeasure] w]
    by (simp add: Let_def monospaceMeasure_def helloSpanItem_def pageViewport_def)
  have y: "scaleTransform halfEmMeasure 12 ''sans-serif'' ''Hello world'' 66 = None"
    using horizontal_scale_correction[OF render_hello_any[of halfEmMeasure] w]
    by (simp add: Let_def halfEmMeasure_def helloSpanItem_def pageViewport_def)
  have z: "scaleTransform zeroMeasure 12 ''sans-serif'' ''Hello world'' 66 = None"
    using horizontal_scale_correction[OF render_hello_any[of zeroMeasure] w]
    by (simp add: Let_def zeroMeasure_def)
  show ?thesis
    using w by (simp add: render_hello_any x y z horizontalScaleFactor_def)
qed

section \<open>The claims about the search\<close>

text \<open>
  C4. For a match span from \<open>s\<close> to \<open>e\<close>, the rectangles collected by the loop over
  the text items are those of the contributing runs, in order, and a run is among the
  contributing runs if and only if it is a text item with \<open>endIndex > s\<close> and
  \<open>startIndex < e\<close>; a run that ends at or before \<open>s\<close>, or starts at or after
  \<open>e\<close>, is not among them.
\<close>

theorem contributing_runs_overlap:
  "collectRects textItems s e [] = map itemRect (contributingRuns textItems s e) \<and>
   (run \<in> set (contributingRuns textItems s e) \<longleftrightarrow>
      run \<in> set textItems \<and> endIndex run > s \<and> startIndex run < e) \<and>
   (endIndex run \<le> s \<or> e \<le> startIndex run \<longrightarrow> run \<notin> set (contributingRuns textItems s e))"
  by (auto simp: collectRects_acc contributingRuns_def)

theorem contributing_runs_overlap_witness:
  "(endIndex worldRun \<le> 0 \<or> 3 \<le> startIndex worldRun) \<and>
   worldRun \<notin> set (contributingRuns [helloSpaceRun, worldRun] 0 3) \<and>
   helloSpaceRun \<in> set (contributingRuns [helloSpaceRun, worldRun] 0 3) \<and>
   collectRects [helloSpaceRun, worldRun] 0 3 [] = [itemRect helloSpaceRun]"
proof -
  have h: "endIndex worldRun \<le> 0 \<or> 3 \<le> startIndex worldRun" by (simp add: worldRun_def)
  have i: "helloSpaceRun \<in> set [helloSpaceRun, worldRun] \<and> endIndex helloSpaceRun > 0 \<and>
      startIndex helloSpaceRun < 3" by (simp add: helloSpaceRun_def)
  note t1 = contributing_runs_overlap[of "[helloSpaceRun, worldRun]" 0 3 worldRun]
  note t2 = contributing_runs_overlap[of "[helloSpaceRun, worldRun]" 0 3 helloSpaceRun]
  from t1 h have n: "worldRun \<notin> set (contributingRuns [helloSpaceRun, worldRun] 0 3)" by blast
  from t2 i have y: "helloSpaceRun \<in> set (contributingRuns [helloSpaceRun, worldRun] 0 3)"
    by blast
  from t1 have "collectRects [helloSpaceRun, worldRun] 0 3 [] =
      map itemRect (contributingRuns [helloSpaceRun, worldRun] 0 3)" by blast
  then have c: "collectRects [helloSpaceRun, worldRun] 0 3 [] = [itemRect helloSpaceRun]"
    by (simp only: contributing_twoRun list.map)
  from h n y c show ?thesis by blast
qed

text \<open>
  C5. For every non-empty query, whatever characters it contains, the pattern source
  built from it lexes to the characters of the query alone: no character of the query
  becomes an operator or an escape sequence (unescaped, a query such as \<open>a.b*c\<close>
  would hold two operators). The search then returns, and its matches
  are case-insensitive literal occurrences of the query in the text, each with the
  text matched; conversely every such occurrence starts inside the span of a reported
  match (it is reported itself unless an earlier reported match overlaps it).
\<close>

theorem literal_search:
  assumes "searchText \<noteq> []"
  shows "tokenize (escapeRegExp searchText) = map PatternCharacter searchText \<and>
         (\<exists>ms. findMatches searchText fullText = Some ms \<and>
            (\<forall>m \<in> set ms. occursAt searchText fullText (match_index m) \<and>
               match_0 m = take (length searchText) (drop (match_index m) fullText)) \<and>
            (\<forall>p. occursAt searchText fullText p \<longrightarrow>
               (\<exists>m \<in> set ms. match_index m \<le> p \<and> p < match_index m + length searchText)))"
proof -
  from findMatches_total[OF assms] obtain ms where
    f: "findMatches searchText fullText = Some ms" and mf: "matchesFrom searchText fullText 0 ms"
    by blast
  have a: "\<forall>m \<in> set ms. occursAt searchText fullText (match_index m) \<and>
               match_0 m = take (length searchText) (drop (match_index m) fullText)"
    using mf by (simp add: matchesFrom_def)
  have b: "\<forall>p. occursAt searchText fullText p \<longrightarrow>
               (\<exists>m \<in> set ms. match_index m \<le> p \<and> p < match_index m + length searchText)"
    using mf by (simp add: matchesFrom_def)
  show ?thesis using tokenize_escapeRegExp f a b by blast
qed

theorem literal_search_witness:
  "''a.b*c'' \<noteq> [] \<and>
   RegExp ''a.b*c'' = None \<and>
   tokenize (escapeRegExp ''a.b*c'') = map PatternCharacter ''a.b*c'' \<and>
   findMatches ''a.b*c'' ''aXbbc a.b*cA.B*C'' =
     Some [\<lparr>match_index = 6, match_0 = ''a.b*c''\<rparr>, \<lparr>match_index = 11, match_0 = ''A.B*C''\<rparr>] \<and>
   occursAt ''a.b*c'' ''aXbbc a.b*cA.B*C'' 6 \<and> occursAt ''a.b*c'' ''aXbbc a.b*cA.B*C'' 11 \<and>
   \<not> occursAt ''a.b*c'' ''aXbbc a.b*cA.B*C'' 0"
proof -
  have h: "''a.b*c'' \<noteq> []" by simp
  have ev: "findMatches ''a.b*c'' ''aXbbc a.b*cA.B*C'' =
     Some [\<lparr>match_index = 6, match_0 = ''a.b*c''\<rparr>, \<lparr>match_index = 11, match_0 = ''A.B*C''\<rparr>]"
    by code_simp
  have n: "\<not> occursAt ''a.b*c'' ''aXbbc a.b*cA.B*C'' 0" by code_simp
  have u: "RegExp ''a.b*c'' = None" by code_simp
  from literal_search[OF h, of "''aXbbc a.b*cA.B*C''"] ev n u h show ?thesis by auto
qed

text \<open>
  C6. For every text and every non-empty query the search returns a sequence of
  matches in which each match ends at or before the start of every later one, and the
  start indices are strictly ascending.
\<close>

theorem matches_ascending_disjoint:
  assumes "searchText \<noteq> []"
  shows "\<exists>ms. findMatches searchText fullText = Some ms \<and>
           sorted_wrt (\<lambda>a b. match_index a + length (match_0 a) \<le> match_index b) ms \<and>
           sorted_wrt (\<lambda>a b. match_index a < match_index b) ms"
proof -
  from findMatches_total[OF assms] obtain ms where
    f: "findMatches searchText fullText = Some ms" and mf: "matchesFrom searchText fullText 0 ms"
    by blast
  have s1: "sorted_wrt (\<lambda>a b. match_index a + length (match_0 a) \<le> match_index b) ms"
    using mf by (simp add: matchesFrom_def)
  have len: "\<forall>m \<in> set ms. 0 < length (match_0 m)"
  proof
    fix m assume "m \<in> set ms"
    then have "occursAt searchText fullText (match_index m)"
      "match_0 m = take (length searchText) (drop (match_index m) fullText)"
      using mf by (auto simp: matchesFrom_def)
    then have "length (match_0 m) = length searchText" by (auto simp: occursAt_def)
    then show "0 < length (match_0 m)" using assms by simp
  qed
  have s2: "sorted_wrt (\<lambda>a b. match_index a < match_index b) ms"
  proof (rule sorted_wrt_mono_rel[OF _ s1])
    fix x y :: regExpMatch
    assume "x \<in> set ms" and le: "match_index x + length (match_0 x) \<le> match_index y"
    then have "0 < length (match_0 x)" using len by blast
    then show "match_index x < match_index y" using le by linarith
  qed
  show ?thesis using f s1 s2 by blast
qed

theorem matches_ascending_disjoint_witness:
  "''aa'' \<noteq> [] \<and>
   findMatches ''aa'' ''aaaAa baaa'' =
     Some [\<lparr>match_index = 0, match_0 = ''aa''\<rparr>, \<lparr>match_index = 2, match_0 = ''aA''\<rparr>,
           \<lparr>match_index = 7, match_0 = ''aa''\<rparr>] \<and>
   sorted_wrt (\<lambda>a b. match_index a + length (match_0 a) \<le> match_index b)
     [\<lparr>match_index = 0, match_0 = ''aa''\<rparr>, \<lparr>match_index = 2, match_0 = ''aA''\<rparr>,
      \<lparr>match_index = 7, match_0 = ''aa''\<rparr>] \<and>
   sorted_wrt (\<lambda>a b. match_index a < match_index b)
     [\<lparr>match_index = 0, match_0 = ''aa''\<rparr>, \<lparr>match_index = 2, match_0 = ''aA''\<rparr>,
      \<lparr>match_index = 7, match_0 = ''aa''\<rparr>]"
proof -
  have h: "''aa'' \<noteq> []" by simp
  have ev: "findMatches ''aa'' ''aaaAa baaa'' =
     Some [\<lparr>match_index = 0, match_0 = ''aa''\<rparr>, \<lparr>match_index = 2, match_0 = ''aA''\<rparr>,
           \<lparr>match_index = 7, match_0 = ''aa''\<rparr>]"
    by code_simp
  from matches_ascending_disjoint[OF h, of "''aaaAa baaa''"] ev h show ?thesis by auto
qed

text \<open>
  C9. For every document, a query that is empty or consists of white space only makes
  \<open>createHighlightsForText\<close> return the empty array.
\<close>

theorem empty_query_no_highlights:
  assumes "\<forall>c \<in> set searchText. isWhiteSpace c"
  shows "createHighlightsForText pdfDocument searchText col opac = Some []"
  using assms by (simp add: createHighlightsForText_def trim_Nil_iff split: option.splits)

theorem empty_query_no_highlights_witness:
  "list_all isWhiteSpace [CHR '' '', CHR 0x09, CHR '' ''] \<and>
   createHighlightsForText (Some [[helloItem]]) [CHR '' '', CHR 0x09, CHR '' ''] ''#ffff00'' 0.3 =
     Some [] \<and>
   createHighlightsForText (Some [[helloItem]]) [] ''#ffff00'' 0.3 = Some [] \<and>
   createHighlightsForText (Some [[helloItem]]) ''world'' ''#ffff00'' 0.3 = Some [helloHighlight]"
proof -
  have h: "\<forall>c \<in> set [CHR '' '', CHR 0x09, CHR '' '']. isWhiteSpace c"
    by (simp add: isWhiteSpace_def)
  have h0: "\<forall>c \<in> set ([] :: string). isWhiteSpace c" by simp
  have l: "list_all isWhiteSpace [CHR '' '', CHR 0x09, CHR '' '']"
    using h by (simp only: list_all_iff)
  show ?thesis
    using l empty_query_no_highlights[OF h] empty_query_no_highlights[OF h0]
      createHighlights_hello by blast
qed

text \<open>
  C10. The text items built from a page tile the text from 0 to its length, in order.
  For a non-empty query the search returns, every match has at least one contributing
  run, so the guard on \<open>rects.length\<close> lets every match through, and the highlights
  of the page are, one for one, the matches.
\<close>

theorem runs_tile_fullText:
  assumes "buildText items [] [] = (fullText, textItems)" and "searchText \<noteq> []"
  shows "tiles 0 textItems (length fullText) \<and>
         (\<exists>ms. findMatches searchText fullText = Some ms \<and>
            (\<forall>m \<in> set ms.
               contributingRuns textItems (match_index m) (match_index m + length (match_0 m)) \<noteq> [] \<and>
               highlightOfMatch pageNum textItems col opac m \<noteq> None) \<and>
            map_option (map content) (searchPage pageNum items searchText col opac) =
              Some (map match_0 ms))"
proof -
  have t: "tiles 0 textItems (length fullText)"
    using buildText_tiles[OF _ assms(1)] by simp
  from findMatches_total[OF assms(2)] obtain ms where
    f: "findMatches searchText fullText = Some ms" and mf: "matchesFrom searchText fullText 0 ms"
    by blast
  have c: "\<forall>m \<in> set ms.
      contributingRuns textItems (match_index m) (match_index m + length (match_0 m)) \<noteq> []"
  proof
    fix m assume m: "m \<in> set ms"
    then have occ: "occursAt searchText fullText (match_index m)"
      and m0: "match_0 m = take (length searchText) (drop (match_index m) fullText)"
      using mf by (auto simp: matchesFrom_def)
    have len: "length (match_0 m) = length searchText" using occ m0 by (auto simp: occursAt_def)
    have pos: "0 < length searchText" using assms(2) by simp
    have le: "match_index m + length searchText \<le> length fullText"
      using occ by (simp add: occursAt_def)
    from le pos have "match_index m < length fullText" by linarith
    from tiles_cover[OF t _ this] obtain run where
      r: "run \<in> set textItems" "startIndex run \<le> match_index m" "match_index m < endIndex run"
      by auto
    have "startIndex run < match_index m + length (match_0 m)"
      using r(2) len pos by linarith
    then have "run \<in> set (contributingRuns textItems (match_index m)
                 (match_index m + length (match_0 m)))"
      using r(1,3) by (simp add: contributingRuns_def)
    then show "contributingRuns textItems (match_index m) (match_index m + length (match_0 m)) \<noteq> []"
      by auto
  qed
  have h: "\<forall>m \<in> set ms. \<exists>h. highlightOfMatch pageNum textItems col opac m = Some h \<and>
      content h = match_0 m"
    using c by (simp add: highlightOfMatch_def Let_def collectRects_acc)
  have s: "map_option (map content) (searchPage pageNum items searchText col opac) =
      Some (map match_0 ms)"
    using map_filter_all_Some[OF h] by (simp add: searchPage_def assms(1) f)
  have "\<forall>m \<in> set ms.
      contributingRuns textItems (match_index m) (match_index m + length (match_0 m)) \<noteq> [] \<and>
      highlightOfMatch pageNum textItems col opac m \<noteq> None"
    using c h by fastforce
  with t f s show ?thesis by blast
qed

theorem runs_tile_fullText_witness:
  "buildText twoRunPage [] [] = (''Hello World'', [helloSpaceRun, worldRun]) \<and>
   ''o w'' \<noteq> [] \<and>
   tiles 0 [helloSpaceRun, worldRun] 11 \<and>
   findMatches ''o w'' ''Hello World'' = Some [\<lparr>match_index = 4, match_0 = ''o W''\<rparr>] \<and>
   contributingRuns [helloSpaceRun, worldRun] 4 7 = [helloSpaceRun, worldRun] \<and>
   map_option (map content) (searchPage 1 twoRunPage ''o w'' ''#ffff00'' 0.3) = Some [''o W'']"
proof -
  have h: "''o w'' \<noteq> []" by simp
  note t = runs_tile_fullText[OF buildText_twoRun h, of 1 "''#ffff00''" "0.3"]
  from t have a: "tiles 0 [helloSpaceRun, worldRun] (length ''Hello World'')" by blast
  have l: "length ''Hello World'' = 11" by simp
  from a have a': "tiles 0 [helloSpaceRun, worldRun] 11" by (simp only: l)
  from t obtain ms where ms: "findMatches ''o w'' ''Hello World'' = Some ms"
    "map_option (map content) (searchPage 1 twoRunPage ''o w'' ''#ffff00'' 0.3) =
       Some (map match_0 ms)"
    by blast
  from ms(1) findMatches_o_w have "ms = [\<lparr>match_index = 4, match_0 = ''o W''\<rparr>]" by simp
  with ms(2) have b: "map_option (map content) (searchPage 1 twoRunPage ''o w'' ''#ffff00'' 0.3) =
      Some [''o W'']" by simp
  from buildText_twoRun h a' findMatches_o_w contributing_twoRun(1) b show ?thesis by blast
qed

section \<open>The claim about drawing highlights\<close>

text \<open>
  The version of \<open>renderHighlight\<close> that converts PDF coordinates draws the
  rectangle of each contributing run of a match with its top at
  \<open>(viewport.height - translateY - height) * scale\<close>, where \<open>translateY\<close> is the run's
  and \<open>height\<close> is the absolute value of the \<open>scaleY\<close> of its transform.
\<close>

lemma renderHighlight_top:
  assumes "highlightOfMatch pageNum textItems col opac m = Some h"
  shows "map rect_top (renderHighlight vp h) =
           map (\<lambda>run. (vp_height vp - translateY (ti_transform run) - \<bar>scaleY (ti_transform run)\<bar>)
                        * vp_scale vp)
               (contributingRuns textItems (match_index m) (match_index m + length (match_0 m)))"
  by (simp add: highlightOfMatch_Some(1)[OF assms] renderHighlight_def itemRect_def comp_def)

lemma renderHighlight_hello: "map rect_top (renderHighlight pageViewport helloHighlight) = [80]"
proof -
  have "map rect_top (renderHighlight pageViewport helloHighlight) =
      [(vp_height pageViewport - translateY (ti_transform helloRun)
         - \<bar>scaleY (ti_transform helloRun)\<bar>) * vp_scale pageViewport]"
    using renderHighlight_top[OF highlight_hello, of pageViewport]
    by (simp add: contributing_hello)
  then show ?thesis by (simp add: pageViewport_def helloRun_def)
qed

text \<open>
  C2. The claim: every highlight rectangle that the search produces is drawn with its
  top at \<open>(viewport.height - translateY - height) * scale\<close>. The search produces its
  rectangles in PDF coordinates. For the match \<open>world\<close> on the sample page, with
  \<open>translateY = 700\<close> and height 12 on a page 792 high at scale 1, the claim asks for
  a top of 80, and the converting version of \<open>renderHighlight\<close> draws the rectangle
  there. The version that takes its rectangles to be in viewport pixels already draws
  the same rectangle at 700.
\<close>

theorem highlight_top_at_sample:
  "createHighlightsForText (Some [[helloItem]]) ''world'' ''#ffff00'' 0.3 = Some [helloHighlight] \<and>
   map rect_top (renderHighlightPixels pageViewport helloHighlight) = [700] \<and>
   map rect_top (renderHighlight pageViewport helloHighlight) = [80] \<and>
   (vp_height pageViewport - translateY (ti_transform helloRun) - \<bar>scaleY (ti_transform helloRun)\<bar>)
     * vp_scale pageViewport = 80"
proof -
  have a: "map rect_top (renderHighlightPixels pageViewport helloHighlight) = [700]"
    by (simp add: renderHighlightPixels_def helloHighlight_def)
  have b: "(vp_height pageViewport - translateY (ti_transform helloRun)
      - \<bar>scaleY (ti_transform helloRun)\<bar>) * vp_scale pageViewport = 80"
    by (simp add: pageViewport_def helloRun_def)
  from createHighlights_hello a renderHighlight_hello b show ?thesis by blast
qed

end
